theory Spec2Isabelle
  imports Main
begin

section \<open>The CSS selector builder of 06-objects-tasks.js\<close>

text \<open>
  The builder is one object, \<open>cssSelectorBuilder\<close>, whose methods derive new objects with
  \<open>Object.create(this)\<close> and give each new object exactly one own property: \<open>parts\<close> (an
  array of \<open>{ type, value }\<close> records) in the six appending methods, \<open>combined\<close> (a record
  \<open>{ selector1, combinator, selector2 }\<close>) in \<open>combine\<close>. No method assigns a property of an
  object it did not create, so objects are modelled as immutable terms that carry their
  prototype. Arrays are the only thing the code mutates (\<open>push\<close>), so arrays live in an
  explicit store and objects hold references into it.
\<close>

text \<open>
  \<open>getJSON\<close> and \<open>fromJSON\<close> call the runtime. \<open>JSON.stringify\<close> and \<open>JSON.parse\<close> are
  parameters of the model; \<open>Object.create\<close> and \<open>Object.assign\<close> are modelled by what they
  do to the prototype and the own fields of the new object. \<open>Rectangle\<close> is not embedded.
\<close>

subsection \<open>Data\<close>

text \<open>The six strings used as \<open>type\<close> of a part.\<close>

datatype part_type = TElement | TId | TClass | TAttr | TPseudoClass | TPseudoElement

text \<open>The object literal \<open>{ type, value }\<close> pushed by the appending methods.\<close>

datatype part = Part (type_of: part_type) (value_of: string)

text \<open>A reference to an array; the store is the list of all arrays allocated so far.\<close>

type_synonym ref = nat

type_synonym store = "part list list"

text \<open>
  The objects the code creates. The first argument of the two derived forms is the
  prototype given to \<open>Object.create\<close>.
\<close>

datatype object =
    cssSelectorBuilder
  | WithParts object ref
  | WithCombined object object string object

text \<open>
  The two \<open>throw new Error(...)\<close> sites, told apart by their message: "Element, id and
  pseudo-element should not occur more then one time inside the selector" and "Selector
  parts should be arranged in the following order: ...". \<open>TypeError\<close> is what reading
  \<open>obj.parts.length\<close> raises when \<open>obj.parts\<close> is undefined.
\<close>

datatype error = DuplicateSelectorPartError | OrderViolationError | TypeError

subsection \<open>Property lookup along the prototype chain\<close>

text \<open>\<open>this.parts\<close>: the own property if there is one, else the prototype's.\<close>

fun get_parts :: "object \<Rightarrow> ref option" where
  "get_parts cssSelectorBuilder = None"
| "get_parts (WithParts proto r) = Some r"
| "get_parts (WithCombined proto selector1 combinator selector2) = get_parts proto"

text \<open>\<open>this.combined\<close>, looked up the same way.\<close>

fun get_combined :: "object \<Rightarrow> (object \<times> string \<times> object) option" where
  "get_combined cssSelectorBuilder = None"
| "get_combined (WithParts proto r) = get_combined proto"
| "get_combined (WithCombined proto selector1 combinator selector2) =
     Some (selector1, combinator, selector2)"

text \<open>
  The expression \<open>this.parts ? [...this.parts] : []\<close> that opens every appending method:
  the contents of the receiver's array (an array is always truthy), or the empty list.
\<close>

definition fragments :: "store \<Rightarrow> object \<Rightarrow> part list" where
  "fragments st this = (case get_parts this of None \<Rightarrow> [] | Some r \<Rightarrow> st ! r)"

subsection \<open>validateOrder\<close>

definition order :: "part_type list" where
  "order = [TElement, TId, TClass, TAttr, TPseudoClass, TPseudoElement]"

text \<open>\<open>Array.prototype.indexOf\<close>: the first position of the element, or \<open>-1\<close>.\<close>

fun indexOf :: "'a list \<Rightarrow> 'a \<Rightarrow> int" where
  "indexOf [] x = -1"
| "indexOf (y # ys) x =
     (if y = x then 0 else (let i = indexOf ys x in if i < 0 then -1 else i + 1))"

text \<open>The \<open>for\<close> loop of \<open>validateOrder\<close> over \<open>obj.parts\<close>, from the index reached.\<close>

fun validateOrder_loop :: "int \<Rightarrow> part list \<Rightarrow> error option" where
  "validateOrder_loop newIndex [] = None"
| "validateOrder_loop newIndex (existing # rest) =
     (let existingIndex = indexOf order (type_of existing)
      in if newIndex < existingIndex then Some OrderViolationError
         else validateOrder_loop newIndex rest)"

definition validateOrder :: "store \<Rightarrow> object \<Rightarrow> part_type \<Rightarrow> error + object" where
  "validateOrder st obj newType =
     (let newIndex = indexOf order newType
      in case get_parts obj of
           None \<Rightarrow> Inl TypeError
         | Some r \<Rightarrow>
             (case validateOrder_loop newIndex (st ! r) of
                Some e \<Rightarrow> Inl e
              | None \<Rightarrow> Inr obj))"

subsection \<open>The appending methods\<close>

text \<open>
  Each method allocates the copy of the receiver's parts at the next free reference
  \<open>length st\<close>, makes it the own \<open>parts\<close> of the new object, runs its checks on the copy
  and pushes the new part onto the copy. A \<open>throw\<close> leaves the allocated copy in the
  store, where no object that existed before refers to it.
\<close>

definition element :: "store \<Rightarrow> object \<Rightarrow> string \<Rightarrow> store \<times> (error + object)" where
  "element st this v =
     (let r = length st;
          obj = WithParts this r;
          st1 = st @ [fragments st this]
      in if list_ex (\<lambda>part. type_of part = TElement) (st1 ! r)
         then (st1, Inl DuplicateSelectorPartError)
         else (case validateOrder st1 obj TElement of
                 Inl e \<Rightarrow> (st1, Inl e)
               | Inr _ \<Rightarrow> (st1[r := st1 ! r @ [Part TElement v]], Inr obj)))"

definition id_sel :: "store \<Rightarrow> object \<Rightarrow> string \<Rightarrow> store \<times> (error + object)" where
  "id_sel st this v =
     (let r = length st;
          obj = WithParts this r;
          st1 = st @ [fragments st this]
      in if list_ex (\<lambda>part. type_of part = TId) (st1 ! r)
         then (st1, Inl DuplicateSelectorPartError)
         else (case validateOrder st1 obj TId of
                 Inl e \<Rightarrow> (st1, Inl e)
               | Inr _ \<Rightarrow> (st1[r := st1 ! r @ [Part TId v]], Inr obj)))"

definition class_sel :: "store \<Rightarrow> object \<Rightarrow> string \<Rightarrow> store \<times> (error + object)" where
  "class_sel st this v =
     (let r = length st;
          obj = WithParts this r;
          st1 = st @ [fragments st this]
      in case validateOrder st1 obj TClass of
           Inl e \<Rightarrow> (st1, Inl e)
         | Inr _ \<Rightarrow> (st1[r := st1 ! r @ [Part TClass v]], Inr obj))"

definition attr :: "store \<Rightarrow> object \<Rightarrow> string \<Rightarrow> store \<times> (error + object)" where
  "attr st this v =
     (let r = length st;
          obj = WithParts this r;
          st1 = st @ [fragments st this]
      in case validateOrder st1 obj TAttr of
           Inl e \<Rightarrow> (st1, Inl e)
         | Inr _ \<Rightarrow> (st1[r := st1 ! r @ [Part TAttr v]], Inr obj))"

definition pseudoClass :: "store \<Rightarrow> object \<Rightarrow> string \<Rightarrow> store \<times> (error + object)" where
  "pseudoClass st this v =
     (let r = length st;
          obj = WithParts this r;
          st1 = st @ [fragments st this]
      in case validateOrder st1 obj TPseudoClass of
           Inl e \<Rightarrow> (st1, Inl e)
         | Inr _ \<Rightarrow> (st1[r := st1 ! r @ [Part TPseudoClass v]], Inr obj))"

definition pseudoElement :: "store \<Rightarrow> object \<Rightarrow> string \<Rightarrow> store \<times> (error + object)" where
  "pseudoElement st this v =
     (let r = length st;
          obj = WithParts this r;
          st1 = st @ [fragments st this]
      in if list_ex (\<lambda>part. type_of part = TPseudoElement) (st1 ! r)
         then (st1, Inl DuplicateSelectorPartError)
         else (case validateOrder st1 obj TPseudoElement of
                 Inl e \<Rightarrow> (st1, Inl e)
               | Inr _ \<Rightarrow> (st1[r := st1 ! r @ [Part TPseudoElement v]], Inr obj)))"

subsection \<open>combine and stringify\<close>

text \<open>\<open>combine\<close> allocates no array: it only records its three arguments.\<close>

definition combine :: "object \<Rightarrow> object \<Rightarrow> string \<Rightarrow> object \<Rightarrow> object" where
  "combine this selector1 combinator selector2 =
     WithCombined this selector1 combinator selector2"

text \<open>
  \<open>Array.prototype.sort\<close> with a comparator is stable: an element goes in front of the
  first one it does not compare greater than. It runs on the copy made by \<open>slice()\<close>, so
  the stored array is only read.
\<close>

fun place :: "('a \<Rightarrow> 'a \<Rightarrow> int) \<Rightarrow> 'a \<Rightarrow> 'a list \<Rightarrow> 'a list" where
  "place cmp a [] = [a]"
| "place cmp a (b # bs) = (if cmp a b \<le> 0 then a # b # bs else b # place cmp a bs)"

fun array_sort :: "('a \<Rightarrow> 'a \<Rightarrow> int) \<Rightarrow> 'a list \<Rightarrow> 'a list" where
  "array_sort cmp [] = []"
| "array_sort cmp (a # as) = place cmp a (array_sort cmp as)"

text \<open>The comparator and the \<open>switch\<close> of \<open>stringify\<close>.\<close>

definition compare_parts :: "part \<Rightarrow> part \<Rightarrow> int" where
  "compare_parts a b = indexOf order (type_of a) - indexOf order (type_of b)"

fun render :: "part \<Rightarrow> string" where
  "render (Part TElement v) = v"
| "render (Part TId v) = ''#'' @ v"
| "render (Part TClass v) = ''.'' @ v"
| "render (Part TAttr v) = ''['' @ v @ '']''"
| "render (Part TPseudoClass v) = '':'' @ v"
| "render (Part TPseudoElement v) = ''::'' @ v"

definition sortedParts :: "part list \<Rightarrow> part list" where
  "sortedParts ps = array_sort compare_parts ps"

lemma get_combined_smaller:
  "get_combined this = Some (s1, c, s2) \<Longrightarrow> size s1 < size this \<and> size s2 < size this"
  by (induction this) auto

function stringify :: "store \<Rightarrow> object \<Rightarrow> string" where
  "stringify st this =
     (case get_combined this of
        Some (selector1, combinator, selector2) \<Rightarrow>
          stringify st selector1 @ '' '' @ combinator @ '' '' @ stringify st selector2
      | None \<Rightarrow>
          (case get_parts this of
             None \<Rightarrow> []
           | Some r \<Rightarrow> concat (map render (sortedParts (st ! r)))))"
  by pat_completeness auto
termination
  by (relation "measure (\<lambda>(st, this). size this)") (auto dest: get_combined_smaller)

declare stringify.simps [simp del]

subsection \<open>Calls and call chains\<close>

text \<open>
  A call \<open>this.m(v)\<close> of one of the six appending methods, named by the type of part it
  appends, and a chain \<open>this.m1(v1).m2(v2)...\<close>, which stops at the first \<open>throw\<close>.
\<close>

fun append_part :: "store \<Rightarrow> object \<Rightarrow> part_type \<Rightarrow> string \<Rightarrow> store \<times> (error + object)" where
  "append_part st this TElement v = element st this v"
| "append_part st this TId v = id_sel st this v"
| "append_part st this TClass v = class_sel st this v"
| "append_part st this TAttr v = attr st this v"
| "append_part st this TPseudoClass v = pseudoClass st this v"
| "append_part st this TPseudoElement v = pseudoElement st this v"

fun chain :: "store \<Rightarrow> object \<Rightarrow> (part_type \<times> string) list \<Rightarrow> store \<times> (error + object)" where
  "chain st this [] = (st, Inr this)"
| "chain st this ((k, v) # calls) =
     (case append_part st this k v of
        (st1, Inl e) \<Rightarrow> (st1, Inl e)
      | (st1, Inr obj) \<Rightarrow> chain st1 obj calls)"

text \<open>Every array reference held by the object, its prototypes and operands is allocated.\<close>

fun allocated :: "store \<Rightarrow> object \<Rightarrow> bool" where
  "allocated st cssSelectorBuilder = True"
| "allocated st (WithParts proto r) = (r < length st \<and> allocated st proto)"
| "allocated st (WithCombined proto selector1 combinator selector2) =
     (allocated st proto \<and> allocated st selector1 \<and> allocated st selector2)"

text \<open>
  The kinds guarded by the \<open>some(...)\<close> test of \<open>element\<close>, \<open>id\<close> and
  \<open>pseudoElement\<close>; the other three methods have no such test.
\<close>

definition once_only :: "part_type \<Rightarrow> bool" where
  "once_only k = (k = TElement \<or> k = TId \<or> k = TPseudoElement)"

subsection \<open>getJSON and fromJSON\<close>
















section \<open>Properties\<close>

lemma stringify_combined:
  "get_combined this = Some (s1, c, s2) \<Longrightarrow>
     stringify st this = stringify st s1 @ '' '' @ c @ '' '' @ stringify st s2"
  by (simp add: stringify.simps)

lemma stringify_simple:
  "get_combined this = None \<Longrightarrow>
     stringify st this = concat (map render (sortedParts (fragments st this)))"
  by (simp add: stringify.simps fragments_def sortedParts_def split: option.split)

subsection \<open>Ranks and the order check\<close>

lemma indexOf_order:
  "indexOf order k = (case k of TElement \<Rightarrow> 0 | TId \<Rightarrow> 1 | TClass \<Rightarrow> 2 | TAttr \<Rightarrow> 3
      | TPseudoClass \<Rightarrow> 4 | TPseudoElement \<Rightarrow> 5)"
  by (cases k) (simp_all add: order_def)

lemma validateOrder_loop_None:
  "validateOrder_loop n ps = None \<longleftrightarrow> (\<forall>p \<in> set ps. \<not> n < indexOf order (type_of p))"
  by (induction ps) (auto simp: Let_def)

lemma validateOrder_loop_Some:
  "validateOrder_loop n ps = Some e \<longleftrightarrow>
     e = OrderViolationError \<and> (\<exists>p \<in> set ps. n < indexOf order (type_of p))"
  by (induction ps) (auto simp: Let_def)

lemma validateOrder_fresh:
  "validateOrder (st @ [ps]) (WithParts this (length st)) k =
     (if \<exists>p \<in> set ps. indexOf order k < indexOf order (type_of p)
      then Inl OrderViolationError else Inr (WithParts this (length st)))"
proof (cases "validateOrder_loop (indexOf order k) ps")
  case None
  then show ?thesis
    using validateOrder_loop_None [of "indexOf order k" ps]
    by (simp add: validateOrder_def)
next
  case (Some e)
  then show ?thesis
    using validateOrder_loop_Some [of "indexOf order k" ps e]
    by (auto simp add: validateOrder_def)
qed

lemma append_part_eq:
  "append_part st this k v =
     (let ps = fragments st this
      in if once_only k \<and> (\<exists>p \<in> set ps. type_of p = k)
         then (st @ [ps], Inl DuplicateSelectorPartError)
         else if \<exists>p \<in> set ps. indexOf order k < indexOf order (type_of p)
         then (st @ [ps], Inl OrderViolationError)
         else (st @ [ps @ [Part k v]], Inr (WithParts this (length st))))"
  by (cases k)
     (simp_all add: element_def id_sel_def class_sel_def attr_def pseudoClass_def
        pseudoElement_def once_only_def Let_def validateOrder_fresh list_ex_iff)

subsection \<open>The store only grows\<close>

lemma get_parts_allocated: "allocated st this \<Longrightarrow> get_parts this = Some r \<Longrightarrow> r < length st"
  by (induction this) auto

lemma get_combined_allocated:
  "allocated st this \<Longrightarrow> get_combined this = Some (s1, c, s2) \<Longrightarrow>
     allocated st s1 \<and> allocated st s2"
proof (induction this)
  case cssSelectorBuilder
  then show ?case by simp
next
  case (WithParts proto r)
  from WithParts.prems have "allocated st proto" "get_combined proto = Some (s1, c, s2)"
    by simp_all
  then show ?case by (rule WithParts.IH)
next
  case (WithCombined proto selector1 combinator selector2)
  from WithCombined.prems show ?case by simp
qed

lemma allocated_grow: "allocated st this \<Longrightarrow> allocated (st @ more) this"
  by (induction this) auto

lemma fragments_grow: "allocated st this \<Longrightarrow> fragments (st @ more) this = fragments st this"
  by (auto simp: fragments_def nth_append split: option.split dest: get_parts_allocated)

lemma stringify_grow: "allocated st this \<Longrightarrow> stringify (st @ more) this = stringify st this"
proof (induction st this rule: stringify.induct)
  case (1 st this)
  show ?case
  proof (cases "get_combined this")
    case None
    then show ?thesis
      using "1.prems" by (simp add: stringify_simple fragments_grow)
  next
    case (Some t)
    obtain s1 c s2 where t: "t = (s1, c, s2)"
      by (cases t) auto
    have a: "allocated st s1" "allocated st s2"
      using get_combined_allocated [OF "1.prems"] Some t by auto
    have "stringify (st @ more) s1 = stringify st s1"
      using "1.IH"(1) [OF Some t [symmetric] refl a(1)] .
    moreover have "stringify (st @ more) s2 = stringify st s2"
      using "1.IH"(2) [OF Some t [symmetric] refl a(2)] .
    moreover have c: "get_combined this = Some (s1, c, s2)"
      using Some t by simp
    ultimately show ?thesis
      using stringify_combined [OF c, of st] stringify_combined [OF c, of "st @ more"]
      by simp
  qed
qed

lemma append_part_store:
  "\<exists>xs. fst (append_part st this k v) = st @ [xs]"
  by (simp add: append_part_eq Let_def)

lemma append_part_ok:
  assumes "append_part st this k v = (st1, Inr obj)"
  shows "obj = WithParts this (length st)"
    and "st1 = st @ [fragments st this @ [Part k v]]"
    and "\<not> (once_only k \<and> (\<exists>p \<in> set (fragments st this). type_of p = k))"
    and "\<not> (\<exists>p \<in> set (fragments st this). indexOf order k < indexOf order (type_of p))"
proof -
  let ?ps = "fragments st this"
  have eq: "append_part st this k v =
     (if once_only k \<and> (\<exists>p \<in> set ?ps. type_of p = k)
         then (st @ [?ps], Inl DuplicateSelectorPartError)
         else if \<exists>p \<in> set ?ps. indexOf order k < indexOf order (type_of p)
         then (st @ [?ps], Inl OrderViolationError)
         else (st @ [?ps @ [Part k v]], Inr (WithParts this (length st))))"
    by (simp only: append_part_eq Let_def)
  show a: "\<not> (once_only k \<and> (\<exists>p \<in> set ?ps. type_of p = k))"
  proof
    assume "once_only k \<and> (\<exists>p \<in> set ?ps. type_of p = k)"
    then show False using assms unfolding eq by simp
  qed
  show b: "\<not> (\<exists>p \<in> set ?ps. indexOf order k < indexOf order (type_of p))"
  proof
    assume h: "\<exists>p \<in> set ?ps. indexOf order k < indexOf order (type_of p)"
    show False using assms a h unfolding eq by simp
  qed
  have "append_part st this k v = (st @ [?ps @ [Part k v]], Inr (WithParts this (length st)))"
    using a b unfolding eq by simp
  with assms show "obj = WithParts this (length st)"
    and "st1 = st @ [fragments st this @ [Part k v]]"
    by simp_all
qed

lemma append_part_ok_fragments:
  assumes "append_part st this k v = (st1, Inr obj)"
  shows "fragments st1 obj = fragments st this @ [Part k v]"
    and "get_combined obj = get_combined this"
    and "allocated st this \<Longrightarrow> allocated st1 obj"
  using append_part_ok(1,2) [OF assms] by (auto simp: fragments_def allocated_grow)

lemma chain_fragments:
  "chain st this calls = (st1, Inr obj) \<Longrightarrow>
     fragments st1 obj = fragments st this @ map (\<lambda>(k, v). Part k v) calls \<and>
     get_combined obj = get_combined this"
proof (induction calls arbitrary: st this)
  case Nil
  then show ?case by simp
next
  case (Cons call calls)
  obtain k v where call: "call = (k, v)" by (cases call) auto
  obtain st2 res where step: "append_part st this k v = (st2, res)"
    by (cases "append_part st this k v") auto
  show ?case
  proof (cases res)
    case (Inl e)
    with Cons.prems call step show ?thesis by simp
  next
    case (Inr mid)
    with Cons.prems call step have rest: "chain st2 mid calls = (st1, Inr obj)" by simp
    from step Inr have ap: "append_part st this k v = (st2, Inr mid)" by simp
    show ?thesis
      using Cons.IH [OF rest] append_part_ok_fragments(1,2) [OF ap] call by simp
  qed
qed

lemma compare_parts_le:
  "compare_parts a b \<le> 0 \<longleftrightarrow> indexOf order (type_of a) \<le> indexOf order (type_of b)"
  by (simp add: compare_parts_def)

lemma place_insort:
  "place compare_parts a bs = insort_key (\<lambda>p. indexOf order (type_of p)) a bs"
  by (induction bs) (simp_all add: compare_parts_le)

lemma sortedParts_sort_key:
  "sortedParts ps = sort_key (\<lambda>p. indexOf order (type_of p)) ps"
  by (induction ps) (simp_all add: sortedParts_def place_insort)

subsection \<open>Sorting and chains\<close>




lemma chain_allocated:
  "chain st this calls = (st1, Inr obj) \<Longrightarrow> allocated st this \<Longrightarrow> allocated st1 obj"
proof (induction calls arbitrary: st this)
  case Nil
  then show ?case by simp
next
  case (Cons call calls)
  obtain k v where call: "call = (k, v)" by (cases call) auto
  obtain st2 res where step: "append_part st this k v = (st2, res)"
    by (cases "append_part st this k v") auto
  show ?case
  proof (cases res)
    case (Inl e)
    with Cons.prems call step show ?thesis by simp
  next
    case (Inr mid)
    with Cons.prems call step have rest: "chain st2 mid calls = (st1, Inr obj)" by simp
    from step Inr have ap: "append_part st this k v = (st2, Inr mid)" by simp
    show ?thesis
      using Cons.IH [OF rest append_part_ok_fragments(3) [OF ap Cons.prems(2)]] .
  qed
qed

lemma chain_rank_order:
  "chain st this calls = (st1, Inr obj) \<Longrightarrow>
     sorted (map (\<lambda>p. indexOf order (type_of p)) (fragments st this)) \<Longrightarrow>
     sorted (map (\<lambda>p. indexOf order (type_of p)) (fragments st1 obj))"
proof (induction calls arbitrary: st this)
  case Nil
  then show ?case by simp
next
  case (Cons call calls)
  obtain k v where call: "call = (k, v)" by (cases call) auto
  obtain st2 res where step: "append_part st this k v = (st2, res)"
    by (cases "append_part st this k v") auto
  show ?case
  proof (cases res)
    case (Inl e)
    with Cons.prems call step show ?thesis by simp
  next
    case (Inr mid)
    with Cons.prems call step have rest: "chain st2 mid calls = (st1, Inr obj)" by simp
    from step Inr have ap: "append_part st this k v = (st2, Inr mid)" by simp
    have fr: "fragments st2 mid = fragments st this @ [Part k v]"
      using append_part_ok_fragments(1) [OF ap] .
    have "\<forall>p \<in> set (fragments st this). indexOf order (type_of p) \<le> indexOf order k"
      using append_part_ok(4) [OF ap] by (simp add: not_less)
    then have "sorted (map (\<lambda>p. indexOf order (type_of p)) (fragments st2 mid))"
      using Cons.prems(2) by (simp add: fr sorted_append)
    then show ?thesis
      using Cons.IH [OF rest] by simp
  qed
qed

lemma chain_stringify_insertion_order:
  assumes "chain st cssSelectorBuilder calls = (st1, Inr sel)"
  shows "stringify st1 sel = concat (map render (map (\<lambda>(k, v). Part k v) calls))"
proof -
  from chain_fragments [OF assms]
  have f: "fragments st1 sel = map (\<lambda>(k, v). Part k v) calls" and c: "get_combined sel = None"
    by (simp_all add: fragments_def)
  have "sorted (map (\<lambda>p. indexOf order (type_of p)) (fragments st1 sel))"
    using chain_rank_order [OF assms] by (simp add: fragments_def)
  then have "sortedParts (fragments st1 sel) = fragments st1 sel"
    by (simp add: sortedParts_sort_key sort_key_id_if_sorted)
  then show ?thesis
    using stringify_simple [OF c, of st1] f by simp
qed

lemma repeat_ok:
  assumes "\<not> once_only k"
  shows "append_part st this k v = (st1, Inr obj) \<Longrightarrow>
     \<exists>st2 obj2. chain st1 obj (map (Pair k) ws) = (st2, Inr obj2)"
proof (induction ws arbitrary: st this v st1 obj)
  case Nil
  then show ?case by simp
next
  case (Cons w ws)
  have fr: "fragments st1 obj = fragments st this @ [Part k v]"
    using append_part_ok_fragments(1) [OF Cons.prems] .
  have "\<not> (\<exists>p \<in> set (fragments st this). indexOf order k < indexOf order (type_of p))"
    using append_part_ok(4) [OF Cons.prems] .
  then have "\<not> (\<exists>p \<in> set (fragments st1 obj). indexOf order k < indexOf order (type_of p))"
    by (simp add: fr)
  then have "append_part st1 obj k w
      = (st1 @ [fragments st1 obj @ [Part k w]], Inr (WithParts obj (length st1)))"
    using assms by (simp add: append_part_eq Let_def)
  then show ?case
    using Cons.IH [of st1 obj w] by simp
qed

lemma object_not_own_prototype: "WithParts this r \<noteq> this"
  by (induction this) auto

subsection \<open>Object.assign\<close>





section \<open>The claims\<close>



text \<open>
  C2, as stated, fails: after \<open>element('a').class('b')\<close> the call \<open>element('c')\<close> appends
  a part of rank 0 below the present rank 2, yet the error raised is the duplicate one,
  because \<open>element\<close> tests for a second element before it calls \<open>validateOrder\<close>.
\<close>
theorem order_error_counterexample:
  "chain [] cssSelectorBuilder [(TElement, ''a''), (TClass, ''b'')]
     = ([[Part TElement ''a''], [Part TElement ''a'', Part TClass ''b'']],
        Inr (WithParts (WithParts cssSelectorBuilder 0) 1))
   \<and> Part TClass ''b''
       \<in> set (fragments [[Part TElement ''a''], [Part TElement ''a'', Part TClass ''b'']]
                (WithParts (WithParts cssSelectorBuilder 0) 1))
   \<and> indexOf order TElement < indexOf order (type_of (Part TClass ''b''))
   \<and> snd (element [[Part TElement ''a''], [Part TElement ''a'', Part TClass ''b'']]
                (WithParts (WithParts cssSelectorBuilder 0) 1) ''c'')
       = Inl DuplicateSelectorPartError
   \<and> snd (element [[Part TElement ''a''], [Part TElement ''a'', Part TClass ''b'']]
                (WithParts (WithParts cssSelectorBuilder 0) 1) ''c'')
       \<noteq> Inl OrderViolationError"
  by (simp add: element_def class_sel_def fragments_def validateOrder_def indexOf_order Let_def)

text \<open>
  C2, amended. An appending call raises the order error exactly when some part already
  present has a strictly higher rank than the appended one and the call is not a second
  \<open>element\<close>, \<open>id\<close> or \<open>pseudoElement\<close> (which raises the duplicate error first). In
  particular a part of equal or higher rank than every present part never raises it.
\<close>
theorem order_error_iff:
  "snd (append_part st this k v) = Inl OrderViolationError \<longleftrightarrow>
     (\<exists>p \<in> set (fragments st this). indexOf order k < indexOf order (type_of p))
     \<and> \<not> (once_only k \<and> (\<exists>p \<in> set (fragments st this). type_of p = k))"
  by (auto simp add: append_part_eq Let_def)

theorem order_error_iff_witness:
  "snd (id_sel [[Part TClass ''c'']] (WithParts cssSelectorBuilder 0) ''i'')
     = Inl OrderViolationError
   \<and> snd (class_sel [[Part TId ''i'']] (WithParts cssSelectorBuilder 0) ''c'')
     \<noteq> Inl OrderViolationError"
  using order_error_iff [of "[[Part TClass ''c'']]" "WithParts cssSelectorBuilder 0" TId "''i''"]
    order_error_iff [of "[[Part TId ''i'']]" "WithParts cssSelectorBuilder 0" TClass "''c''"]
  by (simp add: fragments_def indexOf_order once_only_def)

text \<open>
  C3. On a builder whose parts hold an Element (Id, PseudoElement) part, \<open>element\<close>
  (\<open>id\<close>, \<open>pseudoElement\<close>) raises the duplicate error. \<open>class\<close>, \<open>attr\<close> and
  \<open>pseudoClass\<close> never raise it, and once one of them has succeeded it can be called again
  on the result any number of times.
\<close>
theorem duplicate_error:
  "(list_ex (\<lambda>p. type_of p = TElement) (fragments st this)
      \<longrightarrow> snd (element st this v) = Inl DuplicateSelectorPartError)
   \<and> (list_ex (\<lambda>p. type_of p = TId) (fragments st this)
      \<longrightarrow> snd (id_sel st this v) = Inl DuplicateSelectorPartError)
   \<and> (list_ex (\<lambda>p. type_of p = TPseudoElement) (fragments st this)
      \<longrightarrow> snd (pseudoElement st this v) = Inl DuplicateSelectorPartError)
   \<and> snd (class_sel st this v) \<noteq> Inl DuplicateSelectorPartError
   \<and> snd (attr st this v) \<noteq> Inl DuplicateSelectorPartError
   \<and> snd (pseudoClass st this v) \<noteq> Inl DuplicateSelectorPartError
   \<and> (k \<in> {TClass, TAttr, TPseudoClass} \<and> append_part st this k v = (st1, Inr obj)
      \<longrightarrow> (\<exists>st2 obj2. chain st1 obj (map (Pair k) ws) = (st2, Inr obj2)))"
proof -
  have e: "list_ex (\<lambda>p. type_of p = TElement) (fragments st this)
      \<longrightarrow> snd (element st this v) = Inl DuplicateSelectorPartError"
    using append_part_eq [of st this TElement v]
    by (simp add: Let_def once_only_def list_ex_iff)
  have i: "list_ex (\<lambda>p. type_of p = TId) (fragments st this)
      \<longrightarrow> snd (id_sel st this v) = Inl DuplicateSelectorPartError"
    using append_part_eq [of st this TId v]
    by (simp add: Let_def once_only_def list_ex_iff)
  have p: "list_ex (\<lambda>p. type_of p = TPseudoElement) (fragments st this)
      \<longrightarrow> snd (pseudoElement st this v) = Inl DuplicateSelectorPartError"
    using append_part_eq [of st this TPseudoElement v]
    by (simp add: Let_def once_only_def list_ex_iff)
  have c: "snd (class_sel st this v) \<noteq> Inl DuplicateSelectorPartError"
    using append_part_eq [of st this TClass v]
    by (simp add: Let_def once_only_def)
  have a: "snd (attr st this v) \<noteq> Inl DuplicateSelectorPartError"
    using append_part_eq [of st this TAttr v]
    by (simp add: Let_def once_only_def)
  have q: "snd (pseudoClass st this v) \<noteq> Inl DuplicateSelectorPartError"
    using append_part_eq [of st this TPseudoClass v]
    by (simp add: Let_def once_only_def)
  have r: "k \<in> {TClass, TAttr, TPseudoClass} \<and> append_part st this k v = (st1, Inr obj)
      \<longrightarrow> (\<exists>st2 obj2. chain st1 obj (map (Pair k) ws) = (st2, Inr obj2))"
  proof
    assume h: "k \<in> {TClass, TAttr, TPseudoClass} \<and> append_part st this k v = (st1, Inr obj)"
    then have "\<not> once_only k" by (auto simp: once_only_def)
    from repeat_ok [OF this] h show "\<exists>st2 obj2. chain st1 obj (map (Pair k) ws) = (st2, Inr obj2)"
      by blast
  qed
  from e i p c a q r show ?thesis by blast
qed

theorem duplicate_error_witness:
  "list_ex (\<lambda>p. type_of p = TId)
     (fragments [[Part TElement ''div''], [Part TElement ''div'', Part TId ''main'']]
        (WithParts (WithParts cssSelectorBuilder 0) 1))
   \<and> snd (id_sel [[Part TElement ''div''], [Part TElement ''div'', Part TId ''main'']]
          (WithParts (WithParts cssSelectorBuilder 0) 1) ''x'') = Inl DuplicateSelectorPartError
   \<and> TClass \<in> {TClass, TAttr, TPseudoClass}
   \<and> append_part [] cssSelectorBuilder TClass ''a''
       = ([[Part TClass ''a'']], Inr (WithParts cssSelectorBuilder 0))
   \<and> (\<exists>st2 obj2. chain [[Part TClass ''a'']] (WithParts cssSelectorBuilder 0)
          (map (Pair TClass) [''b'', ''c'']) = (st2, Inr obj2))"
proof -
  have h: "list_ex (\<lambda>p. type_of p = TId)
     (fragments [[Part TElement ''div''], [Part TElement ''div'', Part TId ''main'']]
        (WithParts (WithParts cssSelectorBuilder 0) 1))"
    by (simp add: fragments_def)
  have a: "append_part [] cssSelectorBuilder TClass ''a''
       = ([[Part TClass ''a'']], Inr (WithParts cssSelectorBuilder 0))"
    by (simp add: class_sel_def fragments_def validateOrder_def indexOf_order Let_def)
  show ?thesis
    using h a
      duplicate_error [of "[[Part TElement ''div''], [Part TElement ''div'', Part TId ''main'']]"
        "WithParts (WithParts cssSelectorBuilder 0) 1" "''x''"]
      duplicate_error [of "[]" cssSelectorBuilder "''a''" TClass "[[Part TClass ''a'']]"
        "WithParts cssSelectorBuilder 0" "[''b'', ''c'']"]
    by simp
qed

text \<open>
  C4. A selector made by \<open>combine\<close> stringifies to the left operand, one space, the
  combinator, one space, the right operand, whatever the receiver of \<open>combine\<close> and
  whatever the combinator: with the descendant combinator \<open>' '\<close> the operands are three
  spaces apart, with \<open>'+'\<close> they are joined by \<open>" + "\<close>.
\<close>
theorem stringify_combine:
  "stringify st (combine this A c B) = stringify st A @ '' '' @ c @ '' '' @ stringify st B
   \<and> stringify st (combine this A '' '' B) = stringify st A @ ''   '' @ stringify st B
   \<and> stringify st (combine this A ''+'' B) = stringify st A @ '' + '' @ stringify st B"
  by (simp add: combine_def stringify_combined)

theorem stringify_combine_witness:
  "stringify [[Part TElement ''tr''], [Part TElement ''td'']]
     (combine cssSelectorBuilder (WithParts cssSelectorBuilder 0) '' ''
        (WithParts cssSelectorBuilder 1)) = ''tr   td''"
  using stringify_combine [of "[[Part TElement ''tr''], [Part TElement ''td'']]"
      cssSelectorBuilder "WithParts cssSelectorBuilder 0" "'' ''" "WithParts cssSelectorBuilder 1"]
  by (simp add: stringify_simple fragments_def sortedParts_def)


text \<open>
  C5. A successful appending call returns an object other than its receiver, whose
  \<open>parts\<close> is a freshly allocated array holding the receiver's parts followed by the new
  one; the receiver's own parts and its stringified form are the same after the call as
  before. The receiver is any object whose references are allocated, as every object
  returned by the builder is.
\<close>
theorem append_keeps_receiver:
  assumes "append_part st b1 k v = (st1, Inr b2)" and "allocated st b1"
  shows "b2 \<noteq> b1
    \<and> get_parts b2 = Some (length st)
    \<and> fragments st1 b2 = fragments st b1 @ [Part k v]
    \<and> fragments st1 b1 = fragments st b1
    \<and> stringify st1 b1 = stringify st b1"
proof -
  have b2: "b2 = WithParts b1 (length st)"
    and st1: "st1 = st @ [fragments st b1 @ [Part k v]]"
    using append_part_ok(1,2) [OF assms(1)] by simp_all
  have "b2 \<noteq> b1"
    using b2 object_not_own_prototype by simp
  moreover have "get_parts b2 = Some (length st)"
    using b2 by simp
  moreover have "fragments st1 b2 = fragments st b1 @ [Part k v]"
    using append_part_ok_fragments(1) [OF assms(1)] .
  moreover have "fragments st1 b1 = fragments st b1"
    using fragments_grow [OF assms(2)] st1 by simp
  moreover have "stringify st1 b1 = stringify st b1"
    using stringify_grow [OF assms(2)] st1 by simp
  ultimately show ?thesis by simp
qed

theorem append_keeps_receiver_witness:
  "append_part [[Part TElement ''div'']] (WithParts cssSelectorBuilder 0) TId ''x''
     = ([[Part TElement ''div''], [Part TElement ''div'', Part TId ''x'']],
        Inr (WithParts (WithParts cssSelectorBuilder 0) 1))
   \<and> allocated [[Part TElement ''div'']] (WithParts cssSelectorBuilder 0)
   \<and> stringify [[Part TElement ''div'']] (WithParts cssSelectorBuilder 0) = ''div''
   \<and> stringify [[Part TElement ''div''], [Part TElement ''div'', Part TId ''x'']]
        (WithParts cssSelectorBuilder 0) = ''div''
   \<and> stringify [[Part TElement ''div''], [Part TElement ''div'', Part TId ''x'']]
        (WithParts (WithParts cssSelectorBuilder 0) 1) = ''div#x''"
proof -
  have run: "append_part [[Part TElement ''div'']] (WithParts cssSelectorBuilder 0) TId ''x''
     = ([[Part TElement ''div''], [Part TElement ''div'', Part TId ''x'']],
        Inr (WithParts (WithParts cssSelectorBuilder 0) 1))"
    by (simp add: id_sel_def fragments_def validateOrder_def indexOf_order Let_def)
  have al: "allocated [[Part TElement ''div'']] (WithParts cssSelectorBuilder 0)"
    by simp
  have before: "stringify [[Part TElement ''div'']] (WithParts cssSelectorBuilder 0) = ''div''"
    by (simp add: stringify_simple fragments_def sortedParts_def)
  have b2: "stringify [[Part TElement ''div''], [Part TElement ''div'', Part TId ''x'']]
        (WithParts (WithParts cssSelectorBuilder 0) 1) = ''div#x''"
    by (simp add: stringify_simple fragments_def sortedParts_def compare_parts_def indexOf_order)
  show ?thesis
    using run al before b2 append_keeps_receiver [OF run al] by simp
qed

text \<open>
  C6. An appending call that raises (the error is then the duplicate or the order error)
  leaves every array that existed before the call as it was, so every object that
  existed before the call, the receiver included, has the same parts and the same
  stringified form afterwards.
\<close>
theorem failed_append_changes_nothing:
  assumes "append_part st this k v = (st1, Inl e)"
  shows "e \<in> {DuplicateSelectorPartError, OrderViolationError}
    \<and> (\<forall>r < length st. st1 ! r = st ! r)
    \<and> (\<forall>b. allocated st b \<longrightarrow>
          allocated st1 b \<and> fragments st1 b = fragments st b \<and> stringify st1 b = stringify st b)"
proof -
  have e: "e \<in> {DuplicateSelectorPartError, OrderViolationError}"
    using assms by (auto simp: append_part_eq Let_def split: if_splits)
  obtain xs where "fst (append_part st this k v) = st @ [xs]"
    using append_part_store by blast
  with assms have st1: "st1 = st @ [xs]" by simp
  have "\<forall>r < length st. st1 ! r = st ! r"
    by (simp add: st1 nth_append)
  moreover have "\<forall>b. allocated st b \<longrightarrow>
          allocated st1 b \<and> fragments st1 b = fragments st b \<and> stringify st1 b = stringify st b"
    by (simp add: st1 allocated_grow fragments_grow stringify_grow)
  ultimately show ?thesis using e by simp
qed

theorem failed_append_changes_nothing_witness:
  "append_part [[Part TElement ''a''], [Part TElement ''a'', Part TClass ''b'']]
       (WithParts (WithParts cssSelectorBuilder 0) 1) TId ''c''
     = ([[Part TElement ''a''], [Part TElement ''a'', Part TClass ''b''],
         [Part TElement ''a'', Part TClass ''b'']], Inl OrderViolationError)
   \<and> allocated [[Part TElement ''a''], [Part TElement ''a'', Part TClass ''b'']]
       (WithParts (WithParts cssSelectorBuilder 0) 1)
   \<and> stringify [[Part TElement ''a''], [Part TElement ''a'', Part TClass ''b''],
         [Part TElement ''a'', Part TClass ''b'']]
       (WithParts (WithParts cssSelectorBuilder 0) 1) = ''a.b''"
proof -
  have run: "append_part [[Part TElement ''a''], [Part TElement ''a'', Part TClass ''b'']]
       (WithParts (WithParts cssSelectorBuilder 0) 1) TId ''c''
     = ([[Part TElement ''a''], [Part TElement ''a'', Part TClass ''b''],
         [Part TElement ''a'', Part TClass ''b'']], Inl OrderViolationError)"
    by (simp add: id_sel_def fragments_def validateOrder_def indexOf_order Let_def)
  have al: "allocated [[Part TElement ''a''], [Part TElement ''a'', Part TClass ''b'']]
       (WithParts (WithParts cssSelectorBuilder 0) 1)"
    by simp
  have before: "stringify [[Part TElement ''a''], [Part TElement ''a'', Part TClass ''b'']]
       (WithParts (WithParts cssSelectorBuilder 0) 1) = ''a.b''"
    by (simp add: stringify_simple fragments_def sortedParts_def compare_parts_def indexOf_order)
  show ?thesis
    using run al before failed_append_changes_nothing [OF run] by simp
qed

text \<open>
  C7. \<open>stringify\<close> returns the empty string on the untouched \<open>cssSelectorBuilder\<close>, and on
  any object that has no \<open>combined\<close> and whose parts are empty.
\<close>
theorem stringify_empty:
  "stringify st cssSelectorBuilder = []
   \<and> (get_combined this = None \<and> fragments st this = [] \<longrightarrow> stringify st this = [])"
  by (simp add: stringify_simple sortedParts_def fragments_def)

theorem stringify_empty_witness:
  "get_combined (WithParts cssSelectorBuilder 0) = None
   \<and> fragments [[]] (WithParts cssSelectorBuilder 0) = []
   \<and> stringify [[]] (WithParts cssSelectorBuilder 0) = []
   \<and> stringify [] cssSelectorBuilder = []"
  using stringify_empty [of "[[]]" "WithParts cssSelectorBuilder 0"]
    stringify_empty [of "[]" cssSelectorBuilder]
  by (simp add: fragments_def)

text \<open>
  C10. When the receiver already holds a part of the same kind and also a part of strictly
  higher rank, \<open>element\<close> and \<open>id\<close> raise the duplicate error, not the order error. For
  \<open>pseudoElement\<close> no part has a higher rank, so the two violations cannot coincide and a
  second pseudo-element raises the duplicate error.
\<close>
theorem duplicate_checked_first:
  "(list_ex (\<lambda>p. type_of p = TElement) (fragments st this)
      \<and> list_ex (\<lambda>p. indexOf order TElement < indexOf order (type_of p)) (fragments st this)
      \<longrightarrow> snd (element st this v) = Inl DuplicateSelectorPartError)
   \<and> (list_ex (\<lambda>p. type_of p = TId) (fragments st this)
      \<and> list_ex (\<lambda>p. indexOf order TId < indexOf order (type_of p)) (fragments st this)
      \<longrightarrow> snd (id_sel st this v) = Inl DuplicateSelectorPartError)
   \<and> (list_ex (\<lambda>p. type_of p = TPseudoElement) (fragments st this)
      \<longrightarrow> snd (pseudoElement st this v) = Inl DuplicateSelectorPartError)
   \<and> \<not> indexOf order TPseudoElement < indexOf order (type_of p)"
proof -
  have e: "list_ex (\<lambda>p. type_of p = TElement) (fragments st this)
      \<longrightarrow> snd (element st this v) = Inl DuplicateSelectorPartError"
    by (simp add: element_def Let_def)
  have i: "list_ex (\<lambda>p. type_of p = TId) (fragments st this)
      \<longrightarrow> snd (id_sel st this v) = Inl DuplicateSelectorPartError"
    by (simp add: id_sel_def Let_def)
  have q: "list_ex (\<lambda>p. type_of p = TPseudoElement) (fragments st this)
      \<longrightarrow> snd (pseudoElement st this v) = Inl DuplicateSelectorPartError"
    by (simp add: pseudoElement_def Let_def)
  have r: "\<not> indexOf order TPseudoElement < indexOf order (type_of p)"
    by (cases "type_of p") (simp_all add: indexOf_order)
  from e i q r show ?thesis by blast
qed

theorem duplicate_checked_first_witness:
  "list_ex (\<lambda>p. type_of p = TId)
     (fragments [[Part TId ''i'', Part TClass ''c'']] (WithParts cssSelectorBuilder 0))
   \<and> list_ex (\<lambda>p. indexOf order TId < indexOf order (type_of p))
     (fragments [[Part TId ''i'', Part TClass ''c'']] (WithParts cssSelectorBuilder 0))
   \<and> snd (id_sel [[Part TId ''i'', Part TClass ''c'']] (WithParts cssSelectorBuilder 0) ''j'')
       = Inl DuplicateSelectorPartError"
  using duplicate_checked_first [of "[[Part TId ''i'', Part TClass ''c'']]"
      "WithParts cssSelectorBuilder 0" "''j''"]
  by (simp add: fragments_def indexOf_order)






end
